theory Spec2Isabelle
  imports Main
begin

text \<open>
  A shallow embedding of adsb2otel: the flexible string decoder of package models, the
  fetch-and-push invocation of package flightdata, the logger lookup of package logs and
  the poll loop of package main. Library calls are modelled by what they return: the
  HTTP client and the document decoder by their outcome, \<open>json.Marshal\<close> by a function
  that may fail, \<open>json.Unmarshal\<close>, \<open>strconv\<close> and \<open>fmt\<close> on scalars by exact
  arithmetic on the IEEE 754 binary64 format.
\<close>

section \<open>Go values used by the program\<close>

subsection \<open>float64\<close>

text \<open>
  A Go \<open>float64\<close>. \<open>Finite s m e\<close> stands for the number \<open>(-1)^s * m * 2^e\<close>; the sign
  is kept apart so that negative zero (which \<open>%.0f\<close> prints as \<open>-0\<close>) is a value.
\<close>

datatype float64 = Finite bool nat int | Inf bool | NaN

definition f64_zero :: float64 where
  "f64_zero = Finite False 0 0"

text \<open>Go's \<open>x != 0\<close> on a float64: false exactly for the two zeros (NaN differs from everything).\<close>

fun f64_ne_zero :: "float64 \<Rightarrow> bool" where
  "f64_ne_zero (Finite s m e) = (m \<noteq> 0)"
| "f64_ne_zero (Inf s) = True"
| "f64_ne_zero NaN = True"

text \<open>
  Go's conversion \<open>int64(x)\<close>: truncation toward zero. For a value that int64 cannot
  hold the language leaves the result to the implementation; amd64 yields the minimum.
\<close>

fun int64_of_float64 :: "float64 \<Rightarrow> int" where
  "int64_of_float64 (Finite s m e) =
     (let t = (if 0 \<le> e then int m * 2 ^ nat e else int m div 2 ^ nat (- e));
          v = (if s then - t else t)
      in if - (2 ^ 63) \<le> v \<and> v < 2 ^ 63 then v else - (2 ^ 63))"
| "int64_of_float64 (Inf s) = - (2 ^ 63)"
| "int64_of_float64 NaN = - (2 ^ 63)"

subsection \<open>Decimal rendering\<close>

definition digit_char :: "nat \<Rightarrow> char" where
  "digit_char d = ''0123456789'' ! d"

fun show_nat :: "nat \<Rightarrow> string" where
  "show_nat n = (if n < 10 then [digit_char n] else show_nat (n div 10) @ [digit_char (n mod 10)])"

declare show_nat.simps [simp del]

text \<open>Division of naturals rounded to the nearest quotient, a tie going to the even one.\<close>

definition round_half_even_div :: "nat \<Rightarrow> nat \<Rightarrow> nat" where
  "round_half_even_div a b =
     (let q = a div b; r = a mod b
      in if b < 2 * r \<or> (2 * r = b \<and> odd q) then q + 1 else q)"

text \<open>
  \<open>fmt.Sprintf("%.0f", n)\<close>: the exact decimal expansion of the float, rounded to zero
  fraction digits, half to even, behind the sign.
\<close>

fun Sprintf_0f :: "float64 \<Rightarrow> string" where
  "Sprintf_0f (Finite s m e) =
     (if s then ''-'' else '''') @
     show_nat (if 0 \<le> e then m * 2 ^ nat e else round_half_even_div m (2 ^ nat (- e)))"
| "Sprintf_0f (Inf s) = (if s then ''-Inf'' else ''+Inf'')"
| "Sprintf_0f NaN = ''NaN''"

text \<open>\<open>fmt.Sprintf("%d", i)\<close>.\<close>

definition Sprintf_d :: "int \<Rightarrow> string" where
  "Sprintf_d i = (if i < 0 then ''-'' @ show_nat (nat (- i)) else show_nat (nat i))"

section \<open>encoding/json as the decoder uses it\<close>

text \<open>
  A JSON number literal: the sign, all its digits read as one natural number, how many
  of them stand behind the decimal point, and the exponent part when there is one.
  \<open>25000.7\<close> is \<open>negative = False, digits = 250007, scale = 1, exponent = None\<close>.
\<close>

record number_literal =
  negative :: bool
  digits :: nat
  scale :: nat
  exponent :: "int option"

text \<open>
  The raw bytes handed to an \<open>UnmarshalJSON\<close> method, as the scanner of encoding/json
  classifies them. \<open>TString\<close> carries the unquoted content.
\<close>

datatype json_token =
    TNull
  | TBool bool
  | TString string
  | TNumber number_literal
  | TObject
  | TArray
  | TMalformed

text \<open>The literal's value as a fraction \<open>a / b\<close> of naturals (sign apart).\<close>

definition literal_fraction :: "number_literal \<Rightarrow> nat \<times> nat" where
  "literal_fraction l =
     (let x = (case exponent l of None \<Rightarrow> 0 | Some e \<Rightarrow> e) - int (scale l)
      in if 0 \<le> x then (digits l * 10 ^ nat x, 1) else (digits l, 10 ^ nat (- x)))"

fun bit_length :: "nat \<Rightarrow> nat" where
  "bit_length n = (if n = 0 then 0 else Suc (bit_length (n div 2)))"

declare bit_length.simps [simp del]

text \<open>For positive \<open>a\<close> and \<open>b\<close>: the integer \<open>p\<close> with \<open>2^p \<le> a / b < 2^(p+1)\<close>.\<close>

definition floor_log2 :: "nat \<Rightarrow> nat \<Rightarrow> int" where
  "floor_log2 a b =
     (let k = int (bit_length a) - int (bit_length b)
      in if (if 0 \<le> k then b * 2 ^ nat k \<le> a else b \<le> a * 2 ^ nat (- k)) then k else k - 1)"

text \<open>
  \<open>strconv.ParseFloat(s, 64)\<close> on a well-formed literal: the nearest float64 (ties to
  even; 53 bits of mantissa, least exponent \<open>-1074\<close>), and a range error (\<open>None\<close>) when
  that rounds to \<open>2^1024\<close> or beyond. Underflow to zero is not an error.
\<close>

definition ParseFloat :: "number_literal \<Rightarrow> float64 option" where
  "ParseFloat l =
     (let (a, b) = literal_fraction l
      in if a = 0 then Some (Finite (negative l) 0 0)
         else
           let e = max (floor_log2 a b - 52) (- 1074);
               m = (if 0 \<le> e then round_half_even_div a (b * 2 ^ nat e)
                    else round_half_even_div (a * 2 ^ nat (- e)) b)
           in if 0 \<le> e \<and> 2 ^ 1024 \<le> m * 2 ^ nat e then None
              else Some (Finite (negative l) m e))"

text \<open>
  \<open>strconv.ParseInt(s, 10, 64)\<close> on a well-formed JSON number literal: a syntax error
  when the literal has a fraction or an exponent part, a range error outside int64.
\<close>

definition ParseInt :: "number_literal \<Rightarrow> int option" where
  "ParseInt l =
     (if scale l = 0 \<and> exponent l = None
      then let v = (if negative l then - int (digits l) else int (digits l))
           in if - (2 ^ 63) \<le> v \<and> v \<le> 2 ^ 63 - 1 then Some v else None
      else None)"

text \<open>
  \<open>json.Unmarshal(data, &v)\<close> for the three targets the decoder tries, \<open>v\<close> starting
  at its zero value. \<open>None\<close> is any error return: a syntax error for malformed bytes,
  an \<open>UnmarshalTypeError\<close> for a token of the wrong kind or a number out of range.
  A JSON null leaves the target untouched and is no error.
\<close>

fun Unmarshal_string :: "json_token \<Rightarrow> string option" where
  "Unmarshal_string (TString s) = Some s"
| "Unmarshal_string TNull = Some ''''"
| "Unmarshal_string _ = None"

fun Unmarshal_float64 :: "json_token \<Rightarrow> float64 option" where
  "Unmarshal_float64 (TNumber l) = ParseFloat l"
| "Unmarshal_float64 TNull = Some f64_zero"
| "Unmarshal_float64 _ = None"

fun Unmarshal_int64 :: "json_token \<Rightarrow> int option" where
  "Unmarshal_int64 (TNumber l) = ParseInt l"
| "Unmarshal_int64 TNull = Some 0"
| "Unmarshal_int64 _ = None"

section \<open>package models: FlexibleString\<close>

datatype error =
    CannotUnmarshalIntoFlexibleString json_token
  | FailedToCreateRequest
  | FailedToFetch
  | HTTPRequestFailedWithStatus int
  | FailedToDecode
  | FailedToMarshal

type_synonym FlexibleString = string

text \<open>
  \<open>(*FlexibleString).UnmarshalJSON\<close>: the null check, then the string, the float64
  and the int64 attempt in the order of the source, and the error return. The result is
  the value stored through the receiver.
\<close>

definition UnmarshalJSON :: "json_token \<Rightarrow> error + FlexibleString" where
  "UnmarshalJSON data =
     (if data = TNull then Inr ''''
      else case Unmarshal_string data of
        Some s \<Rightarrow> Inr s
      | None \<Rightarrow>
          (case Unmarshal_float64 data of
             Some n \<Rightarrow> Inr (Sprintf_0f n)
           | None \<Rightarrow>
               (case Unmarshal_int64 data of
                  Some i \<Rightarrow> Inr (Sprintf_d i)
                | None \<Rightarrow> Inl (CannotUnmarshalIntoFlexibleString data))))"

subsection \<open>Dump1090fa\<close>

text \<open>
  One element of \<open>Dump1090fa.Aircraft\<close>. The fields listed are the ones the pipeline
  reads; the struct's further telemetry fields reach only \<open>json.Marshal\<close> and live in
  the extension slot of the record, so every statement below holds for the full struct.
\<close>

record AircraftEntry =
  Hex :: string
  Type :: string
  Flight :: string
  AltBaro :: FlexibleString
  Squawk :: string
  Lat :: float64
  Lon :: float64

record 'a Dump1090fa =
  Now :: float64
  Messages :: int
  Aircraft :: "'a AircraftEntry_scheme list"

section \<open>OpenTelemetry log API and package logs\<close>

datatype Value = StringValue string | Float64Value float64

type_synonym KeyValue = "string \<times> Value"

definition otellog_String :: "string \<Rightarrow> string \<Rightarrow> KeyValue" where
  "otellog_String k v = (k, StringValue v)"

definition otellog_Float64 :: "string \<Rightarrow> float64 \<Rightarrow> KeyValue" where
  "otellog_Float64 k v = (k, Float64Value v)"

datatype Severity = SeverityUndefined | SeverityInfo

text \<open>\<open>otellog.Record\<close>; the timestamp in whole seconds since the epoch.\<close>

record Record =
  Timestamp :: int
  Severity :: Severity
  Body :: Value
  Attributes :: "KeyValue list"

datatype LoggerProvider = LoggerProvider

datatype Logger = Logger LoggerProvider string

datatype Level = LevelDebug | LevelInfo | LevelWarn | LevelError

text \<open>
  The state the program acts on: the package variable \<open>globalLoggerProvider\<close> of
  package logs, the records handed to \<open>Logger.Emit\<close> so far, and the lines handed to
  package logging so far (level and message, without the key-value arguments; a
  \<open>DebugCall\<close> line under the function's name, the \<open>DebugHTTP\<close> line as
  \<open>HTTP request\<close>). Tracing spans are left out.
\<close>

record world =
  globalLoggerProvider :: "LoggerProvider option"
  emitted :: "Record list"
  log_lines :: "(Level \<times> string) list"

definition GetLogger :: "world \<Rightarrow> string \<Rightarrow> Logger option" where
  "GetLogger w name =
     (case globalLoggerProvider w of
        None \<Rightarrow> None
      | Some lp \<Rightarrow> Some (Logger lp name))"

definition Emit :: "Logger \<Rightarrow> Record \<Rightarrow> world \<Rightarrow> world" where
  "Emit logger r w = w\<lparr>emitted := emitted w @ [r]\<rparr>"

definition logging :: "Level \<Rightarrow> string \<Rightarrow> world \<Rightarrow> world" where
  "logging lvl msg w = w\<lparr>log_lines := log_lines w @ [(lvl, msg)]\<rparr>"

section \<open>package flightdata: FetchAndPushLogs\<close>

text \<open>
  What the outside gives one invocation: whether \<open>http.NewRequestWithContext\<close>
  returns an error, what \<open>httpClient.Do\<close> returns (\<open>None\<close> for an error), and for a
  response its status code and what \<open>json.NewDecoder(resp.Body).Decode(&data)\<close> makes
  of its body (\<open>None\<close> for a decoding error).
\<close>

record 'a Response =
  StatusCode :: int
  Decoded :: "'a Dump1090fa option"

record 'a tick_env =
  NewRequest_error :: bool
  Do_result :: "'a Response option"

definition StatusOK :: int where
  "StatusOK = 200"

text \<open>The attribute list built for one aircraft (lines 113 to 135 of flightdata.go).\<close>

definition build_attrs :: "'a AircraftEntry_scheme \<Rightarrow> KeyValue list" where
  "build_attrs aircraft =
     [otellog_String ''service'' ''adsb'',
      otellog_String ''aircraft.hex'' (Hex aircraft),
      otellog_String ''aircraft.type'' (Type aircraft)]
     @ (if Flight aircraft \<noteq> '''' then [otellog_String ''aircraft.flight'' (Flight aircraft)] else [])
     @ (if f64_ne_zero (Lat aircraft) then [otellog_Float64 ''aircraft.lat'' (Lat aircraft)] else [])
     @ (if f64_ne_zero (Lon aircraft) then [otellog_Float64 ''aircraft.lon'' (Lon aircraft)] else [])
     @ (if AltBaro aircraft \<noteq> '''' then [otellog_String ''aircraft.alt_baro'' (AltBaro aircraft)] else [])
     @ (if Squawk aircraft \<noteq> '''' then [otellog_String ''aircraft.squawk'' (Squawk aircraft)] else [])"

text \<open>The log record built for one aircraft from the tick's timestamp and the marshalled body.\<close>

definition build_record :: "int \<Rightarrow> string \<Rightarrow> 'a AircraftEntry_scheme \<Rightarrow> Record" where
  "build_record timestamp aircraftJSON aircraft =
     \<lparr>Timestamp = timestamp, Severity = SeverityInfo,
      Body = StringValue aircraftJSON, Attributes = build_attrs aircraft\<rparr>"

text \<open>
  The \<open>for i, aircraft := range data.Aircraft\<close> loop. \<open>marshal\<close> is \<open>json.Marshal\<close> on
  the aircraft struct, \<open>None\<close> for an error. The first failing entry returns at once.
\<close>

fun range_Aircraft ::
  "('a AircraftEntry_scheme \<Rightarrow> string option) \<Rightarrow> Logger \<Rightarrow> int \<Rightarrow>
   'a AircraftEntry_scheme list \<Rightarrow> world \<Rightarrow> error option \<times> world" where
  "range_Aircraft marshal logger timestamp [] w =
     (None,
      logging LevelInfo ''Successfully fetched and pushed aircraft data''
        (logging LevelDebug ''Converted aircraft data to OTel log records'' w))"
| "range_Aircraft marshal logger timestamp (aircraft # rest) w =
     (let w1 = logging LevelDebug ''Processing aircraft'' w
      in case marshal aircraft of
           None \<Rightarrow> (Some FailedToMarshal, logging LevelError ''Failed to marshal aircraft data'' w1)
         | Some aircraftJSON \<Rightarrow>
             range_Aircraft marshal logger timestamp rest
               (Emit logger (build_record timestamp aircraftJSON aircraft) w1))"

definition FetchAndPushLogs ::
  "('a AircraftEntry_scheme \<Rightarrow> string option) \<Rightarrow> 'a tick_env \<Rightarrow> world \<Rightarrow> error option \<times> world" where
  "FetchAndPushLogs marshal env w =
     (let w1 = logging LevelDebug ''Flight data URL configured'' (logging LevelDebug ''FetchAndPushLogs'' w)
      in if NewRequest_error env
         then (Some FailedToCreateRequest, logging LevelError ''Failed to create HTTP request'' w1)
         else case Do_result env of
           None \<Rightarrow> (Some FailedToFetch, logging LevelError ''Failed to fetch dump1090-fa data'' w1)
         | Some resp \<Rightarrow>
             let w2 = logging LevelDebug ''HTTP request'' w1
             in if StatusCode resp \<noteq> StatusOK
                then (Some (HTTPRequestFailedWithStatus (StatusCode resp)),
                      logging LevelError ''HTTP request returned non-200 status'' w2)
                else case Decoded resp of
                  None \<Rightarrow> (Some FailedToDecode, logging LevelError ''Failed to decode dump1090-fa data'' w2)
                | Some data \<Rightarrow>
                    let w3 = logging LevelDebug ''Successfully parsed flight data'' w2
                    in case GetLogger w3 ''flightdata'' of
                         None \<Rightarrow>
                           (None, logging LevelWarn ''OpenTelemetry logger not initialized, skipping log emission'' w3)
                       | Some logger \<Rightarrow>
                           range_Aircraft marshal logger (int64_of_float64 (Now data)) (Aircraft data) w3)"

section \<open>package main: the poll loop\<close>

datatype Signal = SIGINT | SIGTERM

text \<open>
  What one \<open>select\<close> of the loop receives: a tick (with what the outside gives the
  invocation it starts), a signal on \<open>sigChan\<close>, or the closing of \<open>ctx.Done()\<close>.
\<close>

datatype 'a event = TickerC "'a tick_env" | SigChan Signal | CtxDone

text \<open>\<open>Selecting\<close>: the loop is blocked in its \<open>select\<close>. \<open>Returned\<close>: \<open>main\<close> has returned.\<close>

datatype loop_status = Selecting | Returned

fun is_shutdown :: "'a event \<Rightarrow> bool" where
  "is_shutdown (TickerC env) = False"
| "is_shutdown (SigChan sig) = True"
| "is_shutdown CtxDone = True"

text \<open>
  The \<open>for { select { ... } }\<close> loop of \<open>main\<close>, run on the events that arrive, in their
  order. When the events are used up the loop is blocked in \<open>select\<close> again.
\<close>

fun main_loop ::
  "('a AircraftEntry_scheme \<Rightarrow> string option) \<Rightarrow> 'a event list \<Rightarrow> world \<Rightarrow> loop_status \<times> world" where
  "main_loop marshal [] w = (Selecting, w)"
| "main_loop marshal (TickerC env # evs) w =
     (case FetchAndPushLogs marshal env (logging LevelDebug ''Ticker fired - fetching data'' w) of
        (Some err, w') \<Rightarrow>
          main_loop marshal evs (logging LevelError ''Error fetching and pushing data'' w')
      | (None, w') \<Rightarrow>
          main_loop marshal evs (logging LevelDebug ''Data fetch and push completed successfully'' w'))"
| "main_loop marshal (SigChan sig # evs) w =
     (Returned,
      logging LevelDebug ''Graceful shutdown initiated''
        (logging LevelInfo ''Received shutdown signal'' w))"
| "main_loop marshal (CtxDone # evs) w = (Returned, logging LevelDebug ''Context cancelled'' w)"

text \<open>
  Two observations on a run of the loop: how many times the line "Error fetching and
  pushing data" has been logged, and whether an event is a tick whose invocation
  returns an error.
\<close>

definition error_lines :: "world \<Rightarrow> nat" where
  "error_lines w = count_list (log_lines w) (LevelError, ''Error fetching and pushing data'')"

fun failed_tick ::
  "('a AircraftEntry_scheme \<Rightarrow> string option) \<Rightarrow> world \<Rightarrow> 'a event \<Rightarrow> bool" where
  "failed_tick marshal w (TickerC env) = (fst (FetchAndPushLogs marshal env w) \<noteq> None)"
| "failed_tick marshal w (SigChan sig) = False"
| "failed_tick marshal w CtxDone = False"

section \<open>The error names of the specification\<close>

text \<open>
  The code returns errors built by \<open>fmt.Errorf\<close>; the specification speaks of three
  kinds. This is the reading of its error taxonomy used below: network and HTTP-level
  failures (a non-200 status among them) are transport errors, JSON that cannot be
  decoded is a decode error, a record that cannot be rendered is a serialization error.
\<close>

datatype error_kind = TransportError | DecodeError | SerializationError

fun spec_error_kind :: "error \<Rightarrow> error_kind" where
  "spec_error_kind (CannotUnmarshalIntoFlexibleString data) = DecodeError"
| "spec_error_kind FailedToCreateRequest = TransportError"
| "spec_error_kind FailedToFetch = TransportError"
| "spec_error_kind (HTTPRequestFailedWithStatus status) = TransportError"
| "spec_error_kind FailedToDecode = DecodeError"
| "spec_error_kind FailedToMarshal = SerializationError"

section \<open>Example inputs\<close>

text \<open>
  The aircraft of the specification's scenario
  \<open>{"hex":"abc123","type":"adsb_icao","lat":0,"lon":0}\<close>, a second one with every
  optional field set, and one that the stand-in for \<open>json.Marshal\<close> below rejects.
\<close>

definition scenario_aircraft :: AircraftEntry where
  "scenario_aircraft =
     \<lparr>Hex = ''abc123'', Type = ''adsb_icao'', Flight = '''', AltBaro = '''', Squawk = '''',
      Lat = f64_zero, Lon = f64_zero\<rparr>"

definition second_aircraft :: AircraftEntry where
  "second_aircraft =
     \<lparr>Hex = ''4ca7b5'', Type = ''adsb_icao'', Flight = ''RYR123'', AltBaro = ''25000'',
      Squawk = ''7000'', Lat = Finite False 53 0, Lon = Finite True 6 0\<rparr>"

definition rejected_aircraft :: AircraftEntry where
  "rejected_aircraft =
     \<lparr>Hex = '''', Type = ''mlat'', Flight = '''', AltBaro = ''ground'', Squawk = '''',
      Lat = f64_zero, Lon = f64_zero\<rparr>"

text \<open>A stand-in for \<open>json.Marshal\<close> that fails on an entry without a hex address.\<close>

definition marshal_hex :: "AircraftEntry \<Rightarrow> string option" where
  "marshal_hex aircraft =
     (if Hex aircraft = '''' then None else Some (''{hex:'' @ Hex aircraft @ ''}''))"

text \<open>The scenario's document \<open>{"now":1700000000,"messages":10,"aircraft":[...]}\<close>.\<close>

definition document_of :: "AircraftEntry list \<Rightarrow> unit Dump1090fa" where
  "document_of entries = \<lparr>Now = Finite False 1700000000 0, Messages = 10, Aircraft = entries\<rparr>"

text \<open>An invocation whose request succeeds with the given status and decoding outcome.\<close>

definition respond :: "int \<Rightarrow> unit Dump1090fa option \<Rightarrow> unit tick_env" where
  "respond status decoded =
     \<lparr>NewRequest_error = False, Do_result = Some \<lparr>StatusCode = status, Decoded = decoded\<rparr>\<rparr>"

text \<open>The state at start-up, with or without a logger provider, nothing emitted or logged.\<close>

definition initial_world :: "LoggerProvider option \<Rightarrow> world" where
  "initial_world provider = \<lparr>globalLoggerProvider = provider, emitted = [], log_lines = []\<rparr>"

section \<open>Arithmetic of the float64 model\<close>

lemma bit_length_0 [simp]: "bit_length 0 = 0"
  by (simp add: bit_length.simps)

lemma bit_length_pos: "0 < n \<Longrightarrow> bit_length n = Suc (bit_length (n div 2))"
  by (subst bit_length.simps) simp

lemma bit_length_Suc_0 [simp]: "bit_length (Suc 0) = 1"
  by (simp add: bit_length_pos)

lemma bit_length_bounds:
  "0 < n \<Longrightarrow> 2 ^ (bit_length n - 1) \<le> n \<and> n < 2 ^ bit_length n"
proof (induction n rule: bit_length.induct)
  case (1 n)
  have bl: "bit_length n = Suc (bit_length (n div 2))"
    using "1.prems" by (rule bit_length_pos)
  show ?case
  proof (cases "n div 2 = 0")
    case True
    with "1.prems" have "n = 1" by (auto simp: div_eq_0_iff)
    then show ?thesis by simp
  next
    case False
    then have pos: "0 < n div 2" by simp
    from "1.IH" "1.prems" pos
    have IH: "2 ^ (bit_length (n div 2) - 1) \<le> n div 2" "n div 2 < 2 ^ bit_length (n div 2)"
      by auto
    obtain j where j: "bit_length (n div 2) = Suc j"
      using pos by (auto simp add: bit_length_pos)
    have "(2::nat) ^ j \<le> n div 2"
      using IH(1) by (simp add: j)
    then have "2 * (2::nat) ^ j \<le> n"
      by linarith
    then have lower: "2 ^ (bit_length n - 1) \<le> n"
      by (simp add: bl j)
    have "n div 2 + 1 \<le> 2 ^ bit_length (n div 2)"
      using IH(2) by linarith
    then have "n < 2 * 2 ^ bit_length (n div 2)"
      by linarith
    then have upper: "n < 2 ^ bit_length n"
      by (simp add: bl)
    from lower upper show ?thesis ..
  qed
qed

lemma bit_length_le: "n < 2 ^ k \<Longrightarrow> bit_length n \<le> k"
proof (cases "n = 0")
  case True
  then show ?thesis by simp
next
  case False
  assume "n < 2 ^ k"
  moreover from False have "(2::nat) ^ (bit_length n - 1) \<le> n"
    using bit_length_bounds [of n] by blast
  ultimately have "(2::nat) ^ (bit_length n - 1) < 2 ^ k"
    by linarith
  then have "bit_length n - 1 < k"
    by (rule power_less_imp_less_exp [rotated]) simp
  then show ?thesis by linarith
qed

lemma bit_length_gt: "2 ^ k \<le> n \<Longrightarrow> k < bit_length n"
proof -
  assume a: "2 ^ k \<le> n"
  have "(0::nat) < 2 ^ k" by simp
  with a have "0 < n" by linarith
  then have "n < 2 ^ bit_length n"
    using bit_length_bounds [of n] by blast
  with a have "(2::nat) ^ k < 2 ^ bit_length n" by linarith
  then show ?thesis
    by (rule power_less_imp_less_exp [rotated]) simp
qed

lemma floor_log2_int: "0 < d \<Longrightarrow> floor_log2 d 1 = int (bit_length d) - 1"
proof -
  assume d: "0 < d"
  then obtain j where j: "bit_length d = Suc j"
    by (auto simp add: bit_length_pos)
  have "2 ^ j \<le> d"
    using bit_length_bounds [OF d] by (simp add: j)
  then show ?thesis
    by (simp add: floor_log2_def Let_def j)
qed

lemma round_half_even_div_exact: "0 < b \<Longrightarrow> round_half_even_div (q * b) b = q"
  by (simp add: round_half_even_div_def)

lemma round_half_even_div_le: "round_half_even_div a b \<le> a div b + 1"
  by (simp add: round_half_even_div_def Let_def)

lemma round_half_even_div_upper: "round_half_even_div a b * b \<le> a + b"
proof -
  have "round_half_even_div a b * b \<le> (a div b + 1) * b"
    using round_half_even_div_le by (rule mult_le_mono1)
  also have "\<dots> = a div b * b + b"
    by (simp add: add_mult_distrib)
  also have "\<dots> \<le> a + b"
    by simp
  finally show ?thesis .
qed

lemma literal_fraction_integer:
  "scale l = 0 \<Longrightarrow> exponent l = None \<Longrightarrow> literal_fraction l = (digits l, 1)"
  by (simp add: literal_fraction_def)

lemma ParseFloat_integer_unfold:
  assumes "scale l = 0" "exponent l = None" "0 < digits l"
  shows "ParseFloat l =
    (let e = int (bit_length (digits l)) - 53;
         m = (if 0 \<le> e then round_half_even_div (digits l) (2 ^ nat e)
              else digits l * 2 ^ nat (- e))
     in if 0 \<le> e \<and> 2 ^ 1024 \<le> m * 2 ^ nat e then None
        else Some (Finite (negative l) m e))"
proof -
  have "0 < bit_length (digits l)"
    using assms(3) by (simp add: bit_length_pos)
  then have e: "max (floor_log2 (digits l) 1 - 52) (- 1074) = int (bit_length (digits l)) - 53"
    using floor_log2_int [OF assms(3)] by simp
  have r: "\<And>a. round_half_even_div a 1 = a"
    by (simp add: round_half_even_div_def)
  show ?thesis
    unfolding ParseFloat_def literal_fraction_integer [OF assms(1,2)] Let_def prod.case e r nat_mult_1
    using assms(3) by simp
qed

lemma ParseFloat_int64:
  assumes "scale l = 0" "exponent l = None" "digits l \<le> 2 ^ 63"
  shows "ParseFloat l \<noteq> None"
proof (cases "digits l = 0")
  case True
  then show ?thesis
    by (simp add: ParseFloat_def literal_fraction_integer [OF assms(1,2)])
next
  case False
  then have pos: "0 < digits l" by simp
  define e where "e = int (bit_length (digits l)) - 53"
  define m where "m = (if 0 \<le> e then round_half_even_div (digits l) (2 ^ nat e)
              else digits l * 2 ^ nat (- e))"
  have "digits l < 2 ^ 64"
    using assms(3) by simp
  then have "bit_length (digits l) \<le> 64"
    by (rule bit_length_le)
  then have e11: "e \<le> 11"
    by (simp add: e_def)
  have "\<not> (0 \<le> e \<and> 2 ^ 1024 \<le> m * 2 ^ nat e)"
  proof
    assume a: "0 \<le> e \<and> 2 ^ 1024 \<le> m * 2 ^ nat e"
    then have "m = round_half_even_div (digits l) (2 ^ nat e)"
      by (simp add: m_def)
    then have "m * 2 ^ nat e \<le> digits l + 2 ^ nat e"
      by (simp add: round_half_even_div_upper)
    moreover have "(2::nat) ^ nat e \<le> 2 ^ 11"
      using e11 by (intro power_increasing) simp_all
    ultimately have "m * 2 ^ nat e \<le> 2 ^ 63 + 2 ^ 11"
      using assms(3) by linarith
    also have "\<dots> < (2::nat) ^ 1024"
      by simp
    finally show False
      using a by simp
  qed
  then show ?thesis
    unfolding ParseFloat_integer_unfold [OF assms(1,2) pos] Let_def e_def [symmetric] m_def [symmetric]
    by simp
qed

lemma ParseFloat_exact_integer:
  assumes "scale l = 0" "exponent l = None" "digits l \<le> 2 ^ 53"
  shows "\<exists>f. ParseFloat l = Some f
           \<and> Sprintf_0f f = (if negative l then ''-'' else '''') @ show_nat (digits l)"
proof (cases "digits l = 0")
  case True
  then show ?thesis
    by (simp add: ParseFloat_def literal_fraction_integer [OF assms(1,2)])
next
  case False
  then have pos: "0 < digits l" by simp
  define e where "e = int (bit_length (digits l)) - 53"
  define m where "m = (if 0 \<le> e then round_half_even_div (digits l) (2 ^ nat e)
              else digits l * 2 ^ nat (- e))"
  have pf: "ParseFloat l = (if 0 \<le> e \<and> 2 ^ 1024 \<le> m * 2 ^ nat e then None
        else Some (Finite (negative l) m e))"
    unfolding ParseFloat_integer_unfold [OF assms(1,2) pos] Let_def e_def [symmetric] m_def [symmetric]
    by simp
  have "digits l \<le> 2 ^ 63"
    using assms(3) by simp
  then have some: "ParseFloat l = Some (Finite (negative l) m e)"
    using ParseFloat_int64 [OF assms(1,2)] pf
    by (auto split: if_splits)
  have "digits l < 2 ^ 54"
    using assms(3) by simp
  then have le54: "bit_length (digits l) \<le> 54"
    by (rule bit_length_le)
  have val: "(if 0 \<le> e then m * 2 ^ nat e else round_half_even_div m (2 ^ nat (- e))) = digits l"
  proof (cases "0 \<le> e")
    case False
    then have "m = digits l * 2 ^ nat (- e)"
      by (simp add: m_def)
    then show ?thesis
      using False by (simp add: round_half_even_div_exact)
  next
    case True
    show ?thesis
    proof (cases "e = 0")
      case True
      then show ?thesis
        by (simp add: m_def round_half_even_div_def)
    next
      case False
      with True le54 have e1: "e = 1"
        by (simp add: e_def)
      then have "bit_length (digits l) = 54"
        by (simp add: e_def)
      then have "2 ^ 53 \<le> digits l"
        using bit_length_bounds [OF pos] by simp
      with assms(3) have "digits l = 2 ^ 53"
        by simp
      then show ?thesis
        by (simp add: m_def e1 round_half_even_div_def)
    qed
  qed
  show ?thesis
    using some val by simp
qed

lemma bit_length_eqI: "2 ^ k \<le> n \<Longrightarrow> n < 2 ^ Suc k \<Longrightarrow> bit_length n = Suc k"
proof -
  assume "2 ^ k \<le> n" and "n < 2 ^ Suc k"
  then have "k < bit_length n" and "bit_length n \<le> Suc k"
    by (simp_all add: bit_length_gt bit_length_le)
  then show ?thesis by linarith
qed

text \<open>What \<open>floor_log2\<close> computes, and where rounding overflows.\<close>

lemma bit_length_SucE:
  assumes "0 < n"
  obtains j where "bit_length n = Suc j" "2 ^ j \<le> n" "n < 2 ^ Suc j"
proof -
  from assms obtain j where j: "bit_length n = Suc j"
    by (auto simp add: bit_length_pos)
  with bit_length_bounds [OF assms] have "2 ^ j \<le> n" "n < 2 ^ Suc j"
    by simp_all
  with j that show thesis by blast
qed

lemma floor_log2_bounds:
  assumes a: "0 < a" and b: "0 < b" and P: "0 \<le> floor_log2 a b"
  shows "b * 2 ^ nat (floor_log2 a b) \<le> a" and "a < b * 2 ^ Suc (nat (floor_log2 a b))"
proof -
  from a obtain ja where ja: "bit_length a = Suc ja" "2 ^ ja \<le> a" "a < 2 ^ Suc ja"
    by (rule bit_length_SucE)
  from b obtain jb where jb: "bit_length b = Suc jb" "2 ^ jb \<le> b" "b < 2 ^ Suc jb"
    by (rule bit_length_SucE)
  define k where "k = int ja - int jb"
  have fl: "floor_log2 a b =
      (if (if 0 \<le> k then b * 2 ^ nat k \<le> a else b \<le> a * 2 ^ nat (- k)) then k else k - 1)"
    by (simp add: floor_log2_def ja(1) jb(1) k_def Let_def)
  have k0: "0 \<le> k"
    using P fl by (auto split: if_splits)
  then obtain d where d: "ja = jb + d" "nat k = d"
    by (metis k_def le_add_diff_inverse nat_diff_distrib' nat_int of_nat_0_le_iff diff_ge_0_iff_ge of_nat_le_iff)
  have both: "b * 2 ^ nat (floor_log2 a b) \<le> a \<and> a < b * 2 ^ Suc (nat (floor_log2 a b))"
  proof (cases "b * 2 ^ d \<le> a")
    case True
    then have flk: "nat (floor_log2 a b) = d"
      using fl k0 d by simp
    have "a < 2 ^ jb * 2 ^ Suc d"
      using ja(3) d(1) by (simp add: power_add)
    also have "\<dots> \<le> b * 2 ^ Suc d"
      using jb(2) by (rule mult_le_mono1)
    finally show ?thesis
      using True flk by simp
  next
    case False
    then have flk: "floor_log2 a b = k - 1"
      using fl k0 d by simp
    with P have "1 \<le> k" by simp
    then obtain d' where d': "d = Suc d'"
      using d(2) by (cases d) auto
    have nat: "nat (floor_log2 a b) = d'"
      using flk d(2) d' by simp
    have "b * 2 ^ d' < 2 ^ Suc jb * 2 ^ d'"
      using jb(3) by simp
    also have "\<dots> = 2 ^ ja"
      using d(1) d' by (simp add: power_add)
    finally have "b * 2 ^ d' \<le> a"
      using ja(2) by linarith
    moreover have "a < b * 2 ^ Suc d'"
      using False d' by simp
    ultimately show ?thesis
      using nat by simp
  qed
  from both show "b * 2 ^ nat (floor_log2 a b) \<le> a" and "a < b * 2 ^ Suc (nat (floor_log2 a b))"
    by simp_all
qed

lemma floor_log2_greatest:
  assumes a: "0 < a" and b: "0 < b" and j: "b * 2 ^ j \<le> a"
  shows "int j \<le> floor_log2 a b"
proof -
  from a obtain ja where ja: "bit_length a = Suc ja" "2 ^ ja \<le> a" "a < 2 ^ Suc ja"
    by (rule bit_length_SucE)
  from b obtain jb where jb: "bit_length b = Suc jb" "2 ^ jb \<le> b" "b < 2 ^ Suc jb"
    by (rule bit_length_SucE)
  define k where "k = int ja - int jb"
  have fl: "floor_log2 a b =
      (if (if 0 \<le> k then b * 2 ^ nat k \<le> a else b \<le> a * 2 ^ nat (- k)) then k else k - 1)"
    by (simp add: floor_log2_def ja(1) jb(1) k_def Let_def)
  have "(2::nat) ^ (jb + j) = 2 ^ jb * 2 ^ j"
    by (simp add: power_add)
  also have "\<dots> \<le> b * 2 ^ j"
    using jb(2) by (rule mult_le_mono1)
  also have "\<dots> < 2 ^ Suc ja"
    using j ja(3) by linarith
  finally have "jb + j < Suc ja"
    by (rule power_less_imp_less_exp [rotated]) simp
  then have jk: "int j \<le> k" and k0: "0 \<le> k" and natk: "nat k = ja - jb"
    by (simp_all add: k_def)
  show ?thesis
  proof (cases "b * 2 ^ nat k \<le> a")
    case True
    then show ?thesis using fl k0 jk by simp
  next
    case False
    then have "b * 2 ^ j < b * 2 ^ nat k"
      using j by linarith
    then have "(2::nat) ^ j < 2 ^ nat k"
      using b by simp
    then have "j < nat k"
      by (rule power_less_imp_less_exp [rotated]) simp
    then show ?thesis
      using fl k0 False by simp
  qed
qed

lemma round_half_even_div_ge: "a div b \<le> round_half_even_div a b"
  by (simp add: round_half_even_div_def Let_def)

lemma round_half_even_div_boundary:
  assumes B: "0 < B" and a: "a < 2 ^ 53 * B"
  shows "(2 ^ 53 \<le> round_half_even_div a B) = (2 ^ 54 * B \<le> 2 * a + B)"
proof -
  define q where "q = a div B"
  define r where "r = a mod B"
  have decomp: "a = q * B + r"
    by (simp add: q_def r_def)
  have q_less: "q < 2 ^ 53"
    unfolding q_def using a by (rule less_mult_imp_div_less)
  have rhe: "round_half_even_div a B = (if B < 2 * r \<or> (2 * r = B \<and> odd q) then q + 1 else q)"
    by (simp add: round_half_even_div_def Let_def q_def r_def)
  show ?thesis
  proof
    assume up: "2 ^ 53 \<le> round_half_even_div a B"
    with q_less rhe have cond: "B < 2 * r \<or> (2 * r = B \<and> odd q)"
      by (auto split: if_splits)
    with up rhe q_less have q: "q = 2 ^ 53 - 1"
      by simp
    have "a = (2 ^ 53 - 1) * B + r"
      using decomp q by simp
    moreover have "B \<le> 2 * r"
      using cond by auto
    ultimately show "2 ^ 54 * B \<le> 2 * a + B"
      by simp
  next
    assume thr: "2 ^ 54 * B \<le> 2 * a + B"
    have q: "q = 2 ^ 53 - 1"
    proof (rule ccontr)
      assume "q \<noteq> 2 ^ 53 - 1"
      with q_less have "q + 1 \<le> 2 ^ 53 - 1"
        by simp
      then have "(q + 1) * B \<le> (2 ^ 53 - 1) * B"
        by (rule mult_le_mono1)
      moreover have "a < (q + 1) * B"
        using B by (simp add: q_def dividend_less_div_times)
      ultimately have "a < (2 ^ 53 - 1) * B"
        by linarith
      with thr show False
        by simp
    qed
    have "a = (2 ^ 53 - 1) * B + r"
      using decomp q by simp
    with thr have "B \<le> 2 * r"
      by simp
    moreover have "odd q"
      by (simp add: q)
    ultimately have "B < 2 * r \<or> (2 * r = B \<and> odd q)"
      by auto
    then show "2 ^ 53 \<le> round_half_even_div a B"
      using rhe q by simp
  qed
qed

lemma round_overflow_iff:
  assumes a: "0 < a" and b: "0 < b"
  defines "P \<equiv> floor_log2 a b"
  shows "(52 \<le> P \<and> 2 ^ 1024 \<le> round_half_even_div a (b * 2 ^ nat (P - 52)) * 2 ^ nat (P - 52))
       = (2 ^ 1024 * b \<le> a + 2 ^ 970 * b)"
proof -
  define n where "n = nat (P - 52)"
  define B where "B = b * 2 ^ n"
  define m where "m = round_half_even_div a B"
  have B0: "0 < B"
    using b by (simp add: B_def)
  have bounds: "2 ^ 52 * B \<le> a" "a < 2 ^ 53 * B" if "52 \<le> P"
  proof -
    from that have P0: "0 \<le> floor_log2 a b" and nP: "nat (floor_log2 a b) = n + 52"
      by (simp_all add: P_def n_def)
    from floor_log2_bounds [OF a b P0]
    show "2 ^ 52 * B \<le> a" "a < 2 ^ 53 * B"
      by (simp_all add: nP B_def power_add mult_ac)
  qed
  have thr_low: "b * 2 ^ 1023 \<le> a" if "2 ^ 1024 * b \<le> a + 2 ^ 970 * b"
  proof -
    have "(2::nat) ^ 970 \<le> 2 ^ 1023"
      by (rule power_increasing) simp_all
    then have "2 ^ 970 * b \<le> 2 ^ 1023 * b"
      by (rule mult_le_mono1)
    moreover have "(2::nat) ^ 1024 * b = 2 ^ 1023 * b + 2 ^ 1023 * b"
      by simp
    ultimately show ?thesis
      using that by (simp add: mult.commute)
  qed
  consider (low) "P < 1023" | (edge) "P = 1023" | (high) "1024 \<le> P"
    by linarith
  then show ?thesis
  proof cases
    case low
    have no_thr: "\<not> 2 ^ 1024 * b \<le> a + 2 ^ 970 * b"
    proof
      assume "2 ^ 1024 * b \<le> a + 2 ^ 970 * b"
      then have "b * 2 ^ 1023 \<le> a"
        by (rule thr_low)
      from floor_log2_greatest [OF a b this] low show False
        by (simp add: P_def)
    qed
    have no_ovf: "\<not> 2 ^ 1024 \<le> m * 2 ^ n" if P52: "52 \<le> P"
    proof -
      have "a div B < 2 ^ 53"
        using bounds(2) [OF P52] by (rule less_mult_imp_div_less)
      then have "m \<le> 2 ^ 53"
        using round_half_even_div_le [of a B] by (simp add: m_def)
      then have "m * 2 ^ n \<le> 2 ^ 53 * 2 ^ n"
        by (rule mult_le_mono1)
      also have "\<dots> = 2 ^ (53 + n)"
        by (simp add: power_add)
      also have "\<dots> \<le> 2 ^ 1023"
        using low P52 by (intro power_increasing) (simp_all add: n_def)
      also have "\<dots> < (2::nat) ^ 1024"
        by simp
      finally show ?thesis
        by simp
    qed
    from no_thr no_ovf show ?thesis
      by (auto simp add: m_def B_def n_def)
  next
    case edge
    then have n: "n = 971" and P52: "52 \<le> P"
      by (simp_all add: n_def)
    have "(2 ^ 1024 \<le> m * 2 ^ n) = (2 ^ 53 * 2 ^ 971 \<le> m * (2::nat) ^ 971)"
      by (simp add: n)
    also have "\<dots> = (2 ^ 53 \<le> m)"
      by (simp only: mult_le_cancel2) simp
    also have "\<dots> = (2 ^ 54 * B \<le> 2 * a + B)"
      unfolding m_def using B0 bounds(2) [OF P52] by (rule round_half_even_div_boundary)
    also have "\<dots> = (2 * (2 ^ 1024 * b) \<le> 2 * (a + 2 ^ 970 * b))"
      by (simp add: B_def n)
    also have "\<dots> = (2 ^ 1024 * b \<le> a + 2 ^ 970 * b)"
      by simp
    finally show ?thesis
      using P52 by (simp add: m_def B_def n_def)
  next
    case high
    then have P52: "52 \<le> P" and n972: "972 \<le> n"
      by (simp_all add: n_def)
    have big: "(2::nat) ^ 1024 \<le> 2 ^ 52 * 2 ^ n"
    proof -
      have "(2::nat) ^ 1024 \<le> 2 ^ (52 + n)"
        using n972 by (intro power_increasing) simp_all
      then show ?thesis
        by (simp add: power_add)
    qed
    have "2 ^ 1024 * b \<le> 2 ^ 52 * 2 ^ n * b"
      using big by (rule mult_le_mono1)
    also have "\<dots> = 2 ^ 52 * B"
      by (simp add: B_def mult_ac)
    also have "\<dots> \<le> a"
      by (rule bounds(1) [OF P52])
    finally have thr: "2 ^ 1024 * b \<le> a + 2 ^ 970 * b"
      by simp
    have "2 ^ 52 \<le> a div B"
      using bounds(1) [OF P52] B0 by (simp add: less_eq_div_iff_mult_less_eq)
    then have "2 ^ 52 \<le> m"
      using round_half_even_div_ge [of a B] by (simp add: m_def)
    then have "2 ^ 52 * 2 ^ n \<le> m * 2 ^ n"
      by (rule mult_le_mono1)
    with big have "2 ^ 1024 \<le> m * 2 ^ n"
      by linarith
    with thr P52 show ?thesis
      by (simp add: m_def B_def n_def)
  qed
qed

lemma literal_fraction_pos: "literal_fraction l = (a, b) \<Longrightarrow> 0 < b"
  by (auto simp add: literal_fraction_def Let_def split: if_splits)

text \<open>
  The literals that \<open>ParseFloat\<close> rejects are those of magnitude at least
  \<open>2^1024 - 2^970\<close>, half a unit in the last place above the largest float64.
\<close>

lemma ParseFloat_None_iff:
  assumes "literal_fraction l = (a, b)"
  shows "(ParseFloat l = None) = (2 ^ 1024 * b \<le> a + 2 ^ 970 * b)"
proof (cases "a = 0")
  case True
  have "(2::nat) ^ 970 < 2 ^ 1024"
    by simp
  then have "2 ^ 970 * b < 2 ^ 1024 * b"
    using literal_fraction_pos [OF assms] by simp
  then show ?thesis
    using True assms by (simp add: ParseFloat_def)
next
  case False
  then have a: "0 < a" by simp
  have b: "0 < b"
    using assms by (rule literal_fraction_pos)
  define P where "P = floor_log2 a b"
  have e: "(0 \<le> max (P - 52) (- 1074)) = (52 \<le> P)"
    "52 \<le> P \<Longrightarrow> max (P - 52) (- 1074) = P - 52"
    by (auto simp add: max_def)
  have "(ParseFloat l = None) =
      (52 \<le> P \<and> 2 ^ 1024 \<le> round_half_even_div a (b * 2 ^ nat (P - 52)) * 2 ^ nat (P - 52))"
    unfolding ParseFloat_def assms Let_def prod.case P_def [symmetric]
    using False by (auto simp add: e)
  then show ?thesis
    using round_overflow_iff [OF a b] by (simp add: P_def)
qed

section \<open>Facts about the decoder\<close>

lemma ParseInt_SomeD:
  "ParseInt l = Some i \<Longrightarrow>
     scale l = 0 \<and> exponent l = None \<and> digits l \<le> 2 ^ 63
     \<and> i = (if negative l then - int (digits l) else int (digits l))"
  by (auto simp add: ParseInt_def Let_def split: if_splits)

text \<open>A literal that fits int64 fits float64: the int64 attempt never rescues a token.\<close>

lemma ParseFloat_None_ParseInt: "ParseFloat l = None \<Longrightarrow> ParseInt l = None"
proof (rule ccontr)
  assume n: "ParseFloat l = None" and "ParseInt l \<noteq> None"
  then obtain i where "ParseInt l = Some i" by auto
  from ParseInt_SomeD [OF this] have "ParseFloat l \<noteq> None"
    by (intro ParseFloat_int64) simp_all
  with n show False by simp
qed

lemma UnmarshalJSON_TNumber:
  "UnmarshalJSON (TNumber l) =
     (case ParseFloat l of
        Some n \<Rightarrow> Inr (Sprintf_0f n)
      | None \<Rightarrow> Inl (CannotUnmarshalIntoFlexibleString (TNumber l)))"
  by (simp add: UnmarshalJSON_def ParseFloat_None_ParseInt split: option.splits)

lemma UnmarshalJSON_Inl_iff:
  "(\<exists>err. UnmarshalJSON data = Inl err) =
     (data = TObject \<or> data = TArray \<or> data = TMalformed \<or> (\<exists>b. data = TBool b)
      \<or> (\<exists>l. data = TNumber l \<and> ParseFloat l = None))"
proof (cases data)
  case (TNumber l)
  then show ?thesis
    by (auto simp add: UnmarshalJSON_TNumber split: option.splits)
qed (simp_all add: UnmarshalJSON_def)

lemma UnmarshalJSON_Inl_kind:
  "UnmarshalJSON data = Inl err \<Longrightarrow> err = CannotUnmarshalIntoFlexibleString data"
  by (auto simp add: UnmarshalJSON_def split: if_splits option.splits)

lemma show_nat_digit: "n < 10 \<Longrightarrow> show_nat n = [digit_char n]"
  by (simp add: show_nat.simps)

lemma show_nat_step: "10 \<le> n \<Longrightarrow> show_nat n = show_nat (n div 10) @ [digit_char (n mod 10)]"
  by (subst show_nat.simps) simp

lemma Sprintf_d_nonneg: "Sprintf_d (int n) = show_nat n"
  by (simp add: Sprintf_d_def)

lemma Sprintf_d_neg: "0 < n \<Longrightarrow> Sprintf_d (- int n) = ''-'' @ show_nat n"
  by (simp add: Sprintf_d_def)

lemma UnmarshalJSON_exact_integer:
  assumes "scale l = 0" "exponent l = None" "digits l \<le> 2 ^ 53"
  shows "UnmarshalJSON (TNumber l) = Inr ((if negative l then ''-'' else '''') @ show_nat (digits l))"
  using ParseFloat_exact_integer [OF assms] by (auto simp add: UnmarshalJSON_TNumber)

text \<open>Evaluations at the literals \<open>2e308\<close>, \<open>25000.7\<close> and \<open>9007199254740993\<close>.\<close>

lemma ParseFloat_2e308:
  "ParseFloat \<lparr>negative = False, digits = 2, scale = 0, exponent = Some 308\<rparr> = None"
proof -
  define N :: nat where "N = 2 * 10 ^ 308"
  have lf: "literal_fraction \<lparr>negative = False, digits = 2, scale = 0, exponent = Some 308\<rparr> = (N, 1)"
    by (simp add: literal_fraction_def N_def)
  have N0: "0 < N"
    by (simp add: N_def)
  have bl: "bit_length N = 1025"
    by (rule bit_length_eqI [of 1024, simplified]) (simp_all add: N_def)
  have e: "max (floor_log2 N 1 - 52) (- 1074) = 972"
    using floor_log2_int [OF N0] by (simp add: bl)
  have ov: "(2::nat) ^ 1024 \<le> round_half_even_div N (1 * 2 ^ nat 972) * 2 ^ nat 972"
    by (simp add: N_def round_half_even_div_def Let_def)
  show ?thesis
    unfolding ParseFloat_def lf Let_def prod.case e
    using N0 ov by simp
qed

lemma bit_length_250007: "bit_length 250007 = 18" "bit_length 10 = 4"
  by (rule bit_length_eqI [of 17, simplified], simp, simp)
     (rule bit_length_eqI [of 3, simplified], simp, simp)

lemma floor_log2_250007: "floor_log2 250007 10 = 14"
  by (simp add: floor_log2_def bit_length_250007)

lemma ParseFloat_25000_7:
  "ParseFloat \<lparr>negative = False, digits = 250007, scale = 1, exponent = None\<rparr>
     = Some (Finite False 6872140088134861 (- 38))"
proof -
  have "literal_fraction \<lparr>negative = False, digits = 250007, scale = 1, exponent = None\<rparr> = (250007, 10)"
    by (simp add: literal_fraction_def)
  moreover have "max (floor_log2 250007 10 - 52) (- 1074) = - 38"
    by (simp add: floor_log2_250007)
  moreover have "round_half_even_div (250007 * 2 ^ nat (- (- 38))) 10 = 6872140088134861"
    by (simp add: round_half_even_div_def Let_def)
  ultimately show ?thesis
    unfolding ParseFloat_def Let_def prod.case by simp
qed

lemma ParseFloat_9007199254740993:
  "ParseFloat \<lparr>negative = False, digits = 9007199254740993, scale = 0, exponent = None\<rparr>
     = Some (Finite False 4503599627370496 1)"
proof -
  have bl: "bit_length 9007199254740993 = 54"
    by (rule bit_length_eqI [of 53, simplified]) simp_all
  show ?thesis
    by (subst ParseFloat_integer_unfold) (simp_all add: bl round_half_even_div_def Let_def)
qed

lemma show_nat_examples:
  "show_nat 25000 = ''25000''"
  "show_nat 25001 = ''25001''"
  "show_nat 9007199254740992 = ''9007199254740992''"
  "show_nat 9007199254740993 = ''9007199254740993''"
  by (simp_all add: show_nat_step show_nat_digit digit_char_def)

section \<open>Facts about the pipeline\<close>

lemma logging_fields [simp]:
  "emitted (logging lvl msg w) = emitted w"
  "globalLoggerProvider (logging lvl msg w) = globalLoggerProvider w"
  "log_lines (logging lvl msg w) = log_lines w @ [(lvl, msg)]"
  by (simp_all add: logging_def)

lemma Emit_fields [simp]:
  "emitted (Emit logger r w) = emitted w @ [r]"
  "globalLoggerProvider (Emit logger r w) = globalLoggerProvider w"
  "log_lines (Emit logger r w) = log_lines w"
  by (simp_all add: Emit_def)

lemma GetLogger_logging [simp]: "GetLogger (logging lvl msg w) name = GetLogger w name"
  by (simp add: GetLogger_def)

text \<open>
  The loop over a prefix whose entries all marshal: it reaches the rest of the list with
  one record emitted per entry of the prefix, in order.
\<close>

lemma range_Aircraft_prefix:
  "map marshal pre = map Some bodies \<Longrightarrow>
   \<exists>w'. range_Aircraft marshal logger ts (pre @ rest) w = range_Aircraft marshal logger ts rest w'
      \<and> emitted w' = emitted w @ map2 (build_record ts) bodies pre"
proof (induction pre arbitrary: bodies w)
  case Nil
  then show ?case by auto
next
  case (Cons a pre)
  then obtain b bs where bodies: "bodies = b # bs" and a: "marshal a = Some b"
    and rest: "map marshal pre = map Some bs"
    by (cases bodies) auto
  let ?w1 = "Emit logger (build_record ts b a) (logging LevelDebug ''Processing aircraft'' w)"
  from Cons.IH [OF rest, of ?w1] obtain w' where
    w': "range_Aircraft marshal logger ts (pre @ rest) ?w1 = range_Aircraft marshal logger ts rest w'"
    "emitted w' = emitted ?w1 @ map2 (build_record ts) bs pre"
    by blast
  show ?case
    using w' a by (intro exI [of _ w']) (simp add: bodies)
qed

lemma range_Aircraft_all:
  assumes "map marshal as = map Some bodies"
  shows "fst (range_Aircraft marshal logger ts as w) = None"
    and "emitted (snd (range_Aircraft marshal logger ts as w)) = emitted w @ map2 (build_record ts) bodies as"
  using range_Aircraft_prefix [OF assms, of logger ts "[]" w] by auto

lemma range_Aircraft_fail:
  assumes "map marshal pre = map Some bodies" and "marshal a = None"
  shows "fst (range_Aircraft marshal logger ts (pre @ a # post) w) = Some FailedToMarshal"
    and "emitted (snd (range_Aircraft marshal logger ts (pre @ a # post) w)) = emitted w @ map2 (build_record ts) bodies pre"
  using range_Aircraft_prefix [OF assms(1), of logger ts "a # post" w] assms(2) by auto

text \<open>With status 200, a decoded body and a logger provider, the invocation is its loop.\<close>

lemma FetchAndPushLogs_loop:
  assumes "\<not> NewRequest_error env" "Do_result env = Some resp" "StatusCode resp = 200"
    "Decoded resp = Some data" "globalLoggerProvider w = Some lp"
  shows "\<exists>w3. FetchAndPushLogs marshal env w =
           range_Aircraft marshal (Logger lp ''flightdata'') (int64_of_float64 (Now data)) (Aircraft data) w3
         \<and> emitted w3 = emitted w"
  using assms by (auto simp add: FetchAndPushLogs_def StatusOK_def GetLogger_def Let_def)

lemma FetchAndPushLogs_no_provider:
  assumes "\<not> NewRequest_error env" "Do_result env = Some resp" "StatusCode resp = 200"
    "Decoded resp = Some data" "globalLoggerProvider w = None"
  shows "fst (FetchAndPushLogs marshal env w) = None"
    and "emitted (snd (FetchAndPushLogs marshal env w)) = emitted w"
  using assms by (simp_all add: FetchAndPushLogs_def StatusOK_def GetLogger_def Let_def)

lemma main_loop_Returned_iff:
  "(fst (main_loop marshal evs w) = Returned) = (\<exists>ev\<in>set evs. is_shutdown ev)"
  by (induction marshal evs w rule: main_loop.induct) (auto split: prod.splits option.splits)

text \<open>
  What an invocation leaves alone: the logger provider and the count of the loop's own
  error line. Whether it fails depends on the state only through the logger provider.
\<close>

lemma error_lines_logging [simp]:
  "error_lines (logging lvl msg w) =
     error_lines w + (if (lvl, msg) = (LevelError, ''Error fetching and pushing data'') then 1 else 0)"
  by (simp add: error_lines_def)

lemma error_lines_Emit [simp]: "error_lines (Emit logger r w) = error_lines w"
  by (simp add: error_lines_def)

lemma range_Aircraft_invariants:
  "globalLoggerProvider (snd (range_Aircraft marshal logger ts as w)) = globalLoggerProvider w
   \<and> error_lines (snd (range_Aircraft marshal logger ts as w)) = error_lines w"
  by (induction as arbitrary: w) (auto simp add: Let_def split: option.splits)

lemma range_Aircraft_fst_world:
  "fst (range_Aircraft marshal logger ts as w) = fst (range_Aircraft marshal logger ts as w')"
proof (induction as arbitrary: w w')
  case Nil
  show ?case by simp
next
  case (Cons a as)
  show ?case
  proof (cases "marshal a")
    case None
    then show ?thesis by simp
  next
    case (Some body)
    then show ?thesis
      using Cons.IH [of "Emit logger (build_record ts body a) (logging LevelDebug ''Processing aircraft'' w)"
          "Emit logger (build_record ts body a) (logging LevelDebug ''Processing aircraft'' w')"]
      by simp
  qed
qed

lemma FetchAndPushLogs_invariants:
  "globalLoggerProvider (snd (FetchAndPushLogs marshal env w)) = globalLoggerProvider w
   \<and> error_lines (snd (FetchAndPushLogs marshal env w)) = error_lines w"
  by (auto simp add: FetchAndPushLogs_def Let_def range_Aircraft_invariants split: option.splits)

lemma FetchAndPushLogs_fst_provider:
  assumes "globalLoggerProvider w = globalLoggerProvider w'"
  shows "fst (FetchAndPushLogs marshal env w) = fst (FetchAndPushLogs marshal env w')"
proof (cases "\<not> NewRequest_error env \<and> (\<exists>resp data lp. Do_result env = Some resp
    \<and> StatusCode resp = 200 \<and> Decoded resp = Some data \<and> globalLoggerProvider w = Some lp)")
  case True
  then obtain resp data lp where h: "\<not> NewRequest_error env" "Do_result env = Some resp"
    "StatusCode resp = 200" "Decoded resp = Some data" "globalLoggerProvider w = Some lp"
    by blast
  from FetchAndPushLogs_loop [OF h, of marshal] obtain w3 where
    "FetchAndPushLogs marshal env w =
       range_Aircraft marshal (Logger lp ''flightdata'') (int64_of_float64 (Now data)) (Aircraft data) w3"
    by blast
  moreover from h(5) assms have "globalLoggerProvider w' = Some lp" by simp
  from FetchAndPushLogs_loop [OF h(1-4) this, of marshal] obtain w3' where
    "FetchAndPushLogs marshal env w' =
       range_Aircraft marshal (Logger lp ''flightdata'') (int64_of_float64 (Now data)) (Aircraft data) w3'"
    by blast
  ultimately show ?thesis
    using range_Aircraft_fst_world by metis
next
  case False
  with assms show ?thesis
    by (auto simp add: FetchAndPushLogs_def Let_def StatusOK_def GetLogger_def split: option.splits)
qed

lemma failed_tick_provider:
  "globalLoggerProvider w = globalLoggerProvider w' \<Longrightarrow> failed_tick marshal w ev = failed_tick marshal w' ev"
  by (cases ev) (simp_all add: FetchAndPushLogs_fst_provider [of w w'])

text \<open>
  Over any events, the loop's error line has been logged once more for every failed
  tick that came before the first shutdown event, and the logger provider is untouched.
\<close>

lemma main_loop_error_lines:
  "globalLoggerProvider (snd (main_loop marshal evs w)) = globalLoggerProvider w
   \<and> error_lines (snd (main_loop marshal evs w))
       = error_lines w
         + length (filter (failed_tick marshal w) (takeWhile (\<lambda>ev. \<not> is_shutdown ev) evs))"
proof (induction marshal evs w rule: main_loop.induct)
  case (1 marshal w)
  show ?case by simp
next
  case (2 marshal env evs w)
  let ?w0 = "logging LevelDebug ''Ticker fired - fetching data'' w"
  obtain r w' where run: "FetchAndPushLogs marshal env ?w0 = (r, w')"
    by (cases "FetchAndPushLogs marshal env ?w0")
  have inv: "globalLoggerProvider w' = globalLoggerProvider w" "error_lines w' = error_lines w"
    using FetchAndPushLogs_invariants [of marshal env ?w0] run by simp_all
  have r: "fst (FetchAndPushLogs marshal env w) = r"
    using FetchAndPushLogs_fst_provider [of w ?w0 marshal env] run by simp
  show ?case
  proof (cases r)
    case None
    let ?w1 = "logging LevelDebug ''Data fetch and push completed successfully'' w'"
    have same: "failed_tick marshal ?w1 = failed_tick marshal w"
      using inv(1) by (intro ext failed_tick_provider) simp
    from "2.IH"(1) [OF run [symmetric] None] None run r inv same
    show ?thesis by simp
  next
    case (Some err)
    let ?w1 = "logging LevelError ''Error fetching and pushing data'' w'"
    have same: "failed_tick marshal ?w1 = failed_tick marshal w"
      using inv(1) by (intro ext failed_tick_provider) simp
    from "2.IH"(2) [OF run [symmetric] Some] Some run r inv same
    show ?thesis by simp
  qed
next
  case (3 marshal sig evs w)
  show ?case by simp
next
  case (4 marshal evs w)
  show ?case by simp
qed

section \<open>The claims\<close>

subsection \<open>The pipeline\<close>

text \<open>
  Claim C1, as amended. Take an invocation whose request succeeds with status 200 and
  whose body decodes to a document with N aircraft entries. If a logger provider has been
  initialised and every entry marshals, the invocation returns no error and emits exactly
  N records, one per entry, in the document's order (entry \<open>j\<close> with body \<open>bodies ! j\<close>).
  With or without a logger provider, an empty aircraft list yields no emitted record and
  no error.
\<close>

theorem FetchAndPushLogs_emits_every_entry:
  assumes "\<not> NewRequest_error env" and "Do_result env = Some resp"
    and "StatusCode resp = 200" and "Decoded resp = Some data"
  shows "(globalLoggerProvider w \<noteq> None \<and> map marshal (Aircraft data) = map Some bodies \<longrightarrow>
            fst (FetchAndPushLogs marshal env w) = None
            \<and> emitted (snd (FetchAndPushLogs marshal env w))
                = emitted w @ map2 (build_record (int64_of_float64 (Now data))) bodies (Aircraft data)
            \<and> length (emitted (snd (FetchAndPushLogs marshal env w)))
                = length (emitted w) + length (Aircraft data))
       \<and> (Aircraft data = [] \<longrightarrow>
            fst (FetchAndPushLogs marshal env w) = None
            \<and> emitted (snd (FetchAndPushLogs marshal env w)) = emitted w)"
proof -
  have with_provider:
    "fst (FetchAndPushLogs marshal env w) = None
     \<and> emitted (snd (FetchAndPushLogs marshal env w))
         = emitted w @ map2 (build_record (int64_of_float64 (Now data))) bodies (Aircraft data)
     \<and> length (emitted (snd (FetchAndPushLogs marshal env w)))
         = length (emitted w) + length (Aircraft data)"
    if lp: "globalLoggerProvider w = Some lp" and ok: "map marshal (Aircraft data) = map Some bodies"
    for lp bodies
  proof -
    from FetchAndPushLogs_loop [OF assms lp, of marshal] obtain w3 where
      w3: "FetchAndPushLogs marshal env w =
             range_Aircraft marshal (Logger lp ''flightdata'') (int64_of_float64 (Now data)) (Aircraft data) w3"
      "emitted w3 = emitted w"
      by blast
    have len: "length bodies = length (Aircraft data)"
      using ok by (metis length_map)
    show ?thesis
      using range_Aircraft_all [OF ok, of "Logger lp ''flightdata''" "int64_of_float64 (Now data)" w3] w3 len
      by simp
  qed
  have empty:
    "fst (FetchAndPushLogs marshal env w) = None
     \<and> emitted (snd (FetchAndPushLogs marshal env w)) = emitted w"
    if nil: "Aircraft data = []"
  proof (cases "globalLoggerProvider w")
    case None
    then show ?thesis
      using FetchAndPushLogs_no_provider [OF assms, of w marshal] by simp
  next
    case (Some lp)
    have "map marshal (Aircraft data) = map Some []"
      using nil by simp
    from with_provider [OF Some this] show ?thesis
      using nil by simp
  qed
  from with_provider empty show ?thesis
    by auto
qed

theorem FetchAndPushLogs_emits_every_entry_witness:
  "fst (FetchAndPushLogs marshal_hex
          (respond 200 (Some (document_of [second_aircraft, scenario_aircraft])))
          (initial_world (Some LoggerProvider))) = None
   \<and> emitted (snd (FetchAndPushLogs marshal_hex
          (respond 200 (Some (document_of [second_aircraft, scenario_aircraft])))
          (initial_world (Some LoggerProvider))))
       = [build_record 1700000000 ''{hex:4ca7b5}'' second_aircraft,
          build_record 1700000000 ''{hex:abc123}'' scenario_aircraft]
   \<and> fst (FetchAndPushLogs marshal_hex (respond 200 (Some (document_of []))) (initial_world None)) = None
   \<and> emitted (snd (FetchAndPushLogs marshal_hex (respond 200 (Some (document_of []))) (initial_world None))) = []"
  using
    FetchAndPushLogs_emits_every_entry
      [where env = "respond 200 (Some (document_of [second_aircraft, scenario_aircraft]))"
         and resp = "\<lparr>StatusCode = 200, Decoded = Some (document_of [second_aircraft, scenario_aircraft])\<rparr>"
         and data = "document_of [second_aircraft, scenario_aircraft]"
         and w = "initial_world (Some LoggerProvider)"
         and marshal = marshal_hex
         and bodies = "[''{hex:4ca7b5}'', ''{hex:abc123}'']"]
    FetchAndPushLogs_emits_every_entry
      [where env = "respond 200 (Some (document_of []))"
         and resp = "\<lparr>StatusCode = 200, Decoded = Some (document_of [])\<rparr>"
         and data = "document_of []"
         and w = "initial_world None"
         and marshal = marshal_hex
         and bodies = "[]"]
  by (simp add: respond_def document_of_def initial_world_def marshal_hex_def
        second_aircraft_def scenario_aircraft_def)

text \<open>
  Claim C1 as stated fails where no logger provider has been initialised (logging
  disabled, or its set-up failed): the scenario's document has one entry, the entry
  marshals, the invocation succeeds, and nothing is emitted.
\<close>

theorem FetchAndPushLogs_emits_every_entry_counterexample:
  "length (Aircraft (document_of [scenario_aircraft])) = 1
   \<and> map marshal_hex (Aircraft (document_of [scenario_aircraft])) = [Some ''{hex:abc123}'']
   \<and> fst (FetchAndPushLogs marshal_hex
            (respond 200 (Some (document_of [scenario_aircraft]))) (initial_world None)) = None
   \<and> emitted (snd (FetchAndPushLogs marshal_hex
            (respond 200 (Some (document_of [scenario_aircraft]))) (initial_world None))) = []"
  using FetchAndPushLogs_no_provider
      [where env = "respond 200 (Some (document_of [scenario_aircraft]))"
         and resp = "\<lparr>StatusCode = 200, Decoded = Some (document_of [scenario_aircraft])\<rparr>"
         and data = "document_of [scenario_aircraft]"
         and w = "initial_world None"
         and marshal = marshal_hex]
  by (simp add: respond_def document_of_def initial_world_def marshal_hex_def scenario_aircraft_def)

text \<open>
  Claim C6. A response whose status code is not 200 makes the invocation return the
  error "HTTP request failed with status", a transport error in the specification's
  terms, and no record is emitted: the emitted records are those from before.
\<close>

theorem FetchAndPushLogs_rejects_non_200:
  assumes "\<not> NewRequest_error env" and "Do_result env = Some resp" and "StatusCode resp \<noteq> 200"
  shows "fst (FetchAndPushLogs marshal env w) = Some (HTTPRequestFailedWithStatus (StatusCode resp))
       \<and> map_option spec_error_kind (fst (FetchAndPushLogs marshal env w)) = Some TransportError
       \<and> emitted (snd (FetchAndPushLogs marshal env w)) = emitted w"
  using assms by (simp add: FetchAndPushLogs_def StatusOK_def Let_def)

theorem FetchAndPushLogs_rejects_non_200_witness:
  "fst (FetchAndPushLogs marshal_hex
          (respond 503 (Some (document_of [second_aircraft, scenario_aircraft])))
          (initial_world (Some LoggerProvider)))
     = Some (HTTPRequestFailedWithStatus 503)
   \<and> map_option spec_error_kind
        (fst (FetchAndPushLogs marshal_hex
          (respond 503 (Some (document_of [second_aircraft, scenario_aircraft])))
          (initial_world (Some LoggerProvider))))
     = Some TransportError
   \<and> emitted (snd (FetchAndPushLogs marshal_hex
          (respond 503 (Some (document_of [second_aircraft, scenario_aircraft])))
          (initial_world (Some LoggerProvider)))) = []"
  using FetchAndPushLogs_rejects_non_200
      [where env = "respond 503 (Some (document_of [second_aircraft, scenario_aircraft]))"
         and resp = "\<lparr>StatusCode = 503, Decoded = Some (document_of [second_aircraft, scenario_aircraft])\<rparr>"
         and w = "initial_world (Some LoggerProvider)"
         and marshal = marshal_hex]
  by (simp add: respond_def initial_world_def)

text \<open>
  Claim C7. When the loop is reached (status 200, decoded body, logger provider) and the
  entry at position \<open>k\<close> is the first whose marshalling fails, the invocation returns the
  error "failed to marshal aircraft data", a serialization error in the specification's
  terms; the records of the \<open>k\<close> entries before it have been emitted, in order, behind
  whatever was emitted earlier, and nothing is emitted for position \<open>k\<close> or later.
\<close>

theorem FetchAndPushLogs_marshal_failure:
  assumes "\<not> NewRequest_error env" and "Do_result env = Some resp"
    and "StatusCode resp = 200" and "Decoded resp = Some data"
    and "globalLoggerProvider w = Some lp"
    and "k < length (Aircraft data)"
    and "map marshal (take k (Aircraft data)) = map Some bodies"
    and "marshal (Aircraft data ! k) = None"
  shows "fst (FetchAndPushLogs marshal env w) = Some FailedToMarshal
       \<and> map_option spec_error_kind (fst (FetchAndPushLogs marshal env w)) = Some SerializationError
       \<and> emitted (snd (FetchAndPushLogs marshal env w))
           = emitted w @ map2 (build_record (int64_of_float64 (Now data))) bodies (take k (Aircraft data))
       \<and> length (emitted (snd (FetchAndPushLogs marshal env w))) = length (emitted w) + k"
proof -
  let ?logger = "Logger lp ''flightdata''" and ?ts = "int64_of_float64 (Now data)"
  from FetchAndPushLogs_loop [OF assms(1-5), of marshal] obtain w3 where
    w3: "FetchAndPushLogs marshal env w = range_Aircraft marshal ?logger ?ts (Aircraft data) w3"
    "emitted w3 = emitted w"
    by blast
  have split: "Aircraft data = take k (Aircraft data) @ Aircraft data ! k # drop (Suc k) (Aircraft data)"
    using assms(6) by (simp add: id_take_nth_drop)
  have len: "length bodies = k"
    using assms(6,7) by (metis length_map length_take min.absorb2 less_imp_le_nat)
  have "fst (range_Aircraft marshal ?logger ?ts (Aircraft data) w3) = Some FailedToMarshal"
    and "emitted (snd (range_Aircraft marshal ?logger ?ts (Aircraft data) w3))
       = emitted w3 @ map2 (build_record ?ts) bodies (take k (Aircraft data))"
    using range_Aircraft_fail [OF assms(7,8), of ?logger ?ts "drop (Suc k) (Aircraft data)" w3]
      split by simp_all
  then show ?thesis
    using w3 len assms(6) by simp
qed

theorem FetchAndPushLogs_marshal_failure_witness:
  "marshal_hex ([second_aircraft, rejected_aircraft, scenario_aircraft] ! 1) = None
   \<and> fst (FetchAndPushLogs marshal_hex
          (respond 200 (Some (document_of [second_aircraft, rejected_aircraft, scenario_aircraft])))
          (initial_world (Some LoggerProvider)))
     = Some FailedToMarshal
   \<and> emitted (snd (FetchAndPushLogs marshal_hex
          (respond 200 (Some (document_of [second_aircraft, rejected_aircraft, scenario_aircraft])))
          (initial_world (Some LoggerProvider))))
     = [build_record 1700000000 ''{hex:4ca7b5}'' second_aircraft]"
  using FetchAndPushLogs_marshal_failure
      [where env = "respond 200 (Some (document_of [second_aircraft, rejected_aircraft, scenario_aircraft]))"
         and resp = "\<lparr>StatusCode = 200,
                       Decoded = Some (document_of [second_aircraft, rejected_aircraft, scenario_aircraft])\<rparr>"
         and data = "document_of [second_aircraft, rejected_aircraft, scenario_aircraft]"
         and w = "initial_world (Some LoggerProvider)"
         and lp = LoggerProvider
         and k = 1
         and marshal = marshal_hex
         and bodies = "[''{hex:4ca7b5}'']"]
  by (simp add: respond_def document_of_def initial_world_def marshal_hex_def
        second_aircraft_def rejected_aircraft_def)

text \<open>
  Claim C10. If no logger provider has been initialised, \<open>GetLogger\<close> returns nil, and an
  invocation that has fetched status 200 and decoded the document returns no error and
  emits nothing, whatever aircraft entries the document holds.
\<close>

theorem FetchAndPushLogs_without_logger:
  assumes "\<not> NewRequest_error env" and "Do_result env = Some resp"
    and "StatusCode resp = 200" and "Decoded resp = Some data"
    and "globalLoggerProvider w = None"
  shows "GetLogger w ''flightdata'' = None
       \<and> fst (FetchAndPushLogs marshal env w) = None
       \<and> emitted (snd (FetchAndPushLogs marshal env w)) = emitted w"
  using FetchAndPushLogs_no_provider [OF assms, of marshal] assms(5)
  by (simp add: GetLogger_def)

theorem FetchAndPushLogs_without_logger_witness:
  "length (Aircraft (document_of [second_aircraft, rejected_aircraft, scenario_aircraft])) = 3
   \<and> fst (FetchAndPushLogs marshal_hex
          (respond 200 (Some (document_of [second_aircraft, rejected_aircraft, scenario_aircraft])))
          (initial_world None)) = None
   \<and> emitted (snd (FetchAndPushLogs marshal_hex
          (respond 200 (Some (document_of [second_aircraft, rejected_aircraft, scenario_aircraft])))
          (initial_world None))) = []"
  using FetchAndPushLogs_without_logger
      [where env = "respond 200 (Some (document_of [second_aircraft, rejected_aircraft, scenario_aircraft]))"
         and resp = "\<lparr>StatusCode = 200,
                       Decoded = Some (document_of [second_aircraft, rejected_aircraft, scenario_aircraft])\<rparr>"
         and data = "document_of [second_aircraft, rejected_aircraft, scenario_aircraft]"
         and w = "initial_world None"
         and marshal = marshal_hex]
  by (simp add: respond_def document_of_def initial_world_def)

subsection \<open>The record transformer\<close>

text \<open>
  Claim C5. The attributes of the record built for an aircraft always hold the service
  tag, the hex and the type (empty or not). They hold \<open>aircraft.flight\<close>,
  \<open>aircraft.lat\<close>, \<open>aircraft.lon\<close>, \<open>aircraft.alt_baro\<close> and \<open>aircraft.squawk\<close> exactly
  when the field is non-empty (non-zero for the two floats), and then with the field's
  value. In particular an entry with lat = 0 and lon = 0 has neither key.
\<close>

theorem build_record_attributes:
  "otellog_String ''service'' ''adsb'' \<in> set (Attributes (build_record ts js a))
   \<and> otellog_String ''aircraft.hex'' (Hex a) \<in> set (Attributes (build_record ts js a))
   \<and> otellog_String ''aircraft.type'' (Type a) \<in> set (Attributes (build_record ts js a))
   \<and> (((''aircraft.flight'', v) \<in> set (Attributes (build_record ts js a)))
        = (Flight a \<noteq> '''' \<and> v = StringValue (Flight a)))
   \<and> (((''aircraft.lat'', v) \<in> set (Attributes (build_record ts js a)))
        = (f64_ne_zero (Lat a) \<and> v = Float64Value (Lat a)))
   \<and> (((''aircraft.lon'', v) \<in> set (Attributes (build_record ts js a)))
        = (f64_ne_zero (Lon a) \<and> v = Float64Value (Lon a)))
   \<and> (((''aircraft.alt_baro'', v) \<in> set (Attributes (build_record ts js a)))
        = (AltBaro a \<noteq> '''' \<and> v = StringValue (AltBaro a)))
   \<and> (((''aircraft.squawk'', v) \<in> set (Attributes (build_record ts js a)))
        = (Squawk a \<noteq> '''' \<and> v = StringValue (Squawk a)))
   \<and> (\<not> f64_ne_zero (Lat a) \<and> \<not> f64_ne_zero (Lon a) \<longrightarrow>
        ''aircraft.lat'' \<notin> fst ` set (Attributes (build_record ts js a))
        \<and> ''aircraft.lon'' \<notin> fst ` set (Attributes (build_record ts js a)))"
  by (auto simp add: build_record_def build_attrs_def otellog_String_def otellog_Float64_def)

theorem build_record_attributes_witness:
  "\<not> f64_ne_zero (Lat scenario_aircraft) \<and> \<not> f64_ne_zero (Lon scenario_aircraft)
   \<and> (''aircraft.hex'', StringValue ''abc123'')
        \<in> set (Attributes (build_record 1700000000 ''{hex:abc123}'' scenario_aircraft))
   \<and> (''aircraft.type'', StringValue ''adsb_icao'')
        \<in> set (Attributes (build_record 1700000000 ''{hex:abc123}'' scenario_aircraft))
   \<and> ''aircraft.lat'' \<notin> fst ` set (Attributes (build_record 1700000000 ''{hex:abc123}'' scenario_aircraft))
   \<and> ''aircraft.lon'' \<notin> fst ` set (Attributes (build_record 1700000000 ''{hex:abc123}'' scenario_aircraft))"
  using build_record_attributes [of 1700000000 "''{hex:abc123}''" scenario_aircraft]
  by (simp add: scenario_aircraft_def f64_zero_def otellog_String_def)

subsection \<open>The flexible scalar decoder\<close>

text \<open>
  Claim C4. The decoder maps the string token \<open>"ground"\<close> to \<open>ground\<close>, the number
  \<open>25000\<close> to \<open>25000\<close>, the number \<open>25000.7\<close> to \<open>25001\<close>, and null to the empty
  string.
\<close>

theorem UnmarshalJSON_examples:
  "UnmarshalJSON (TString ''ground'') = Inr ''ground''
   \<and> UnmarshalJSON (TNumber \<lparr>negative = False, digits = 25000, scale = 0, exponent = None\<rparr>)
       = Inr ''25000''
   \<and> UnmarshalJSON (TNumber \<lparr>negative = False, digits = 250007, scale = 1, exponent = None\<rparr>)
       = Inr ''25001''
   \<and> UnmarshalJSON TNull = Inr ''''"
proof -
  have "UnmarshalJSON (TString ''ground'') = Inr ''ground''"
    by (simp add: UnmarshalJSON_def)
  moreover have "UnmarshalJSON (TNumber \<lparr>negative = False, digits = 25000, scale = 0, exponent = None\<rparr>)
       = Inr ''25000''"
    by (subst UnmarshalJSON_exact_integer) (simp_all add: show_nat_examples)
  moreover have "UnmarshalJSON (TNumber \<lparr>negative = False, digits = 250007, scale = 1, exponent = None\<rparr>)
       = Inr ''25001''"
    unfolding UnmarshalJSON_TNumber ParseFloat_25000_7
    by (simp add: round_half_even_div_def Let_def show_nat_examples)
  moreover have "UnmarshalJSON TNull = Inr ''''"
    by (simp add: UnmarshalJSON_def)
  ultimately show ?thesis by blast
qed

text \<open>
  Claim C2, as amended. The decoder produces a string without error for null (the empty
  string), for every string token, and for every number token that
  \<open>strconv.ParseFloat\<close> can round to a finite float64. It fails exactly when the token
  is an object, an array, malformed, a boolean, or a number beyond the float64 range; the
  error is then "cannot unmarshal ... into FlexibleString", a decode error in the
  specification's terms. A number \<open>a / b\<close> is beyond the range exactly when its magnitude
  is at least \<open>2^1024 - 2^970\<close>.
\<close>

theorem UnmarshalJSON_fails_exactly:
  "UnmarshalJSON TNull = Inr ''''
   \<and> UnmarshalJSON (TString s) = Inr s
   \<and> (ParseFloat l \<noteq> None \<longrightarrow> (\<exists>r. UnmarshalJSON (TNumber l) = Inr r))
   \<and> ((\<exists>err. UnmarshalJSON data = Inl err) =
        (data = TObject \<or> data = TArray \<or> data = TMalformed \<or> (\<exists>b. data = TBool b)
         \<or> (\<exists>l. data = TNumber l \<and> ParseFloat l = None)))
   \<and> (UnmarshalJSON data = Inl err \<longrightarrow>
        err = CannotUnmarshalIntoFlexibleString data \<and> spec_error_kind err = DecodeError)
   \<and> (literal_fraction l = (a, b) \<longrightarrow>
        (ParseFloat l = None) = (2 ^ 1024 * b \<le> a + 2 ^ 970 * b))"
proof -
  have "UnmarshalJSON TNull = Inr ''''" and "UnmarshalJSON (TString s) = Inr s"
    by (simp_all add: UnmarshalJSON_def)
  moreover have "literal_fraction l = (a, b) \<longrightarrow>
        (ParseFloat l = None) = (2 ^ 1024 * b \<le> a + 2 ^ 970 * b)"
    by (auto dest: ParseFloat_None_iff)
  moreover have "ParseFloat l \<noteq> None \<longrightarrow> (\<exists>r. UnmarshalJSON (TNumber l) = Inr r)"
    by (auto simp add: UnmarshalJSON_TNumber)
  moreover have "UnmarshalJSON data = Inl err \<longrightarrow>
        err = CannotUnmarshalIntoFlexibleString data \<and> spec_error_kind err = DecodeError"
    by (auto dest: UnmarshalJSON_Inl_kind)
  ultimately show ?thesis
    using UnmarshalJSON_Inl_iff [of data] by blast
qed

theorem UnmarshalJSON_fails_exactly_witness:
  "ParseFloat \<lparr>negative = False, digits = 250007, scale = 1, exponent = None\<rparr> \<noteq> None
   \<and> UnmarshalJSON (TNumber \<lparr>negative = False, digits = 250007, scale = 1, exponent = None\<rparr>)
       \<noteq> Inl (CannotUnmarshalIntoFlexibleString
               (TNumber \<lparr>negative = False, digits = 250007, scale = 1, exponent = None\<rparr>))
   \<and> UnmarshalJSON TArray = Inl (CannotUnmarshalIntoFlexibleString TArray)
   \<and> spec_error_kind (CannotUnmarshalIntoFlexibleString TArray) = DecodeError
   \<and> literal_fraction \<lparr>negative = False, digits = 250007, scale = 1, exponent = None\<rparr>
       = (250007, 10)
   \<and> \<not> (2 ^ 1024 * 10 \<le> (250007::nat) + 2 ^ 970 * 10)"
  using
    UnmarshalJSON_fails_exactly
      [where l = "\<lparr>negative = False, digits = 250007, scale = 1, exponent = None\<rparr>"
         and data = TArray and err = "CannotUnmarshalIntoFlexibleString TArray"
         and a = 250007 and b = 10]
    ParseFloat_25000_7
  by (auto simp add: UnmarshalJSON_def literal_fraction_def)

text \<open>
  Claim C2 as stated fails on both sides: the boolean token \<open>true\<close> is neither an
  object, an array nor malformed, and the decoder fails on it; the number token
  \<open>2e308\<close> is a well-formed JSON number, and the decoder fails on it.
\<close>

theorem UnmarshalJSON_fails_exactly_counterexample:
  "UnmarshalJSON (TBool True) = Inl (CannotUnmarshalIntoFlexibleString (TBool True))
   \<and> UnmarshalJSON (TNumber \<lparr>negative = False, digits = 2, scale = 0, exponent = Some 308\<rparr>)
       = Inl (CannotUnmarshalIntoFlexibleString
               (TNumber \<lparr>negative = False, digits = 2, scale = 0, exponent = Some 308\<rparr>))"
  unfolding UnmarshalJSON_TNumber ParseFloat_2e308 by (simp add: UnmarshalJSON_def)

text \<open>
  Claim C3, as amended. After the null check the decoder tries the string decode, then
  the float64 decode, then the int64 decode, and stops at the first success; the int64
  decode never succeeds where the float64 decode has failed. So for every JSON integer
  token within the int64 range the result is the zero-decimal rendering of the nearest
  float64; it is the base-10 rendering of the integer itself whenever the magnitude is at
  most \<open>2^53\<close> and the token is not \<open>-0\<close>.
\<close>

theorem UnmarshalJSON_attempt_order:
  "(Unmarshal_string data = Some s \<longrightarrow> UnmarshalJSON data = Inr s)
   \<and> (Unmarshal_string data = None \<and> Unmarshal_float64 data = Some f \<longrightarrow>
        UnmarshalJSON data = Inr (Sprintf_0f f))
   \<and> (Unmarshal_string data = None \<and> Unmarshal_float64 data = None \<longrightarrow>
        Unmarshal_int64 data = None
        \<and> UnmarshalJSON data = Inl (CannotUnmarshalIntoFlexibleString data))
   \<and> (ParseInt l = Some i \<longrightarrow>
        Some (UnmarshalJSON (TNumber l)) = map_option (Inr \<circ> Sprintf_0f) (ParseFloat l)
        \<and> (digits l \<le> 2 ^ 53 \<and> \<not> (negative l \<and> digits l = 0) \<longrightarrow>
             UnmarshalJSON (TNumber l) = Inr (Sprintf_d i)))"
proof -
  have string_first: "Unmarshal_string data = Some s \<longrightarrow> UnmarshalJSON data = Inr s"
    by (cases data) (auto simp add: UnmarshalJSON_def)
  have float_second: "Unmarshal_string data = None \<and> Unmarshal_float64 data = Some f \<longrightarrow>
        UnmarshalJSON data = Inr (Sprintf_0f f)"
    by (cases data) (auto simp add: UnmarshalJSON_def)
  have int_never: "Unmarshal_string data = None \<and> Unmarshal_float64 data = None \<longrightarrow>
        Unmarshal_int64 data = None
        \<and> UnmarshalJSON data = Inl (CannotUnmarshalIntoFlexibleString data)"
    by (cases data) (auto simp add: UnmarshalJSON_def ParseFloat_None_ParseInt)
  have integers: "Some (UnmarshalJSON (TNumber l)) = map_option (Inr \<circ> Sprintf_0f) (ParseFloat l)
        \<and> (digits l \<le> 2 ^ 53 \<and> \<not> (negative l \<and> digits l = 0) \<longrightarrow>
             UnmarshalJSON (TNumber l) = Inr (Sprintf_d i))"
    if p: "ParseInt l = Some i"
  proof -
    note d = ParseInt_SomeD [OF p]
    have "ParseFloat l \<noteq> None"
      using d by (intro ParseFloat_int64) simp_all
    then have first: "Some (UnmarshalJSON (TNumber l)) = map_option (Inr \<circ> Sprintf_0f) (ParseFloat l)"
      by (auto simp add: UnmarshalJSON_TNumber)
    have second: "UnmarshalJSON (TNumber l) = Inr (Sprintf_d i)"
      if small: "digits l \<le> 2 ^ 53" and nz: "\<not> (negative l \<and> digits l = 0)"
    proof -
      have "Sprintf_d i = (if negative l then ''-'' else '''') @ show_nat (digits l)"
        using d nz by (simp add: Sprintf_d_nonneg Sprintf_d_neg)
      moreover have "UnmarshalJSON (TNumber l)
          = Inr ((if negative l then ''-'' else '''') @ show_nat (digits l))"
        using d small by (intro UnmarshalJSON_exact_integer) simp_all
      ultimately show ?thesis by simp
    qed
    from first second show ?thesis by blast
  qed
  from string_first float_second int_never integers show ?thesis
    by blast
qed

theorem UnmarshalJSON_attempt_order_witness:
  "Unmarshal_string (TString ''ground'') = Some ''ground''
   \<and> UnmarshalJSON (TString ''ground'') = Inr ''ground''
   \<and> Unmarshal_string (TNumber \<lparr>negative = False, digits = 250007, scale = 1, exponent = None\<rparr>) = None
   \<and> Unmarshal_float64 (TNumber \<lparr>negative = False, digits = 250007, scale = 1, exponent = None\<rparr>)
       = Some (Finite False 6872140088134861 (- 38))
   \<and> UnmarshalJSON (TNumber \<lparr>negative = False, digits = 250007, scale = 1, exponent = None\<rparr>)
       = Inr (Sprintf_0f (Finite False 6872140088134861 (- 38)))
   \<and> Unmarshal_string (TBool True) = None \<and> Unmarshal_float64 (TBool True) = None
   \<and> Unmarshal_int64 (TBool True) = None
   \<and> ParseInt \<lparr>negative = False, digits = 25000, scale = 0, exponent = None\<rparr> = Some 25000
   \<and> UnmarshalJSON (TNumber \<lparr>negative = False, digits = 25000, scale = 0, exponent = None\<rparr>)
       = Inr (Sprintf_d 25000)"
  using
    UnmarshalJSON_attempt_order
      [where data = "TString ''ground''" and s = "''ground''"
         and l = "\<lparr>negative = False, digits = 25000, scale = 0, exponent = None\<rparr>" and i = 25000]
    UnmarshalJSON_attempt_order
      [where data = "TNumber \<lparr>negative = False, digits = 250007, scale = 1, exponent = None\<rparr>"
         and f = "Finite False 6872140088134861 (- 38)"]
    UnmarshalJSON_attempt_order [where data = "TBool True"]
    ParseFloat_25000_7
  by (simp add: ParseInt_def)

text \<open>
  Claim C3 as stated fails: for the integer token \<open>9007199254740993\<close> (\<open>2^53 + 1\<close>) the
  int64 decode succeeds and would render \<open>9007199254740993\<close>, but the decoder returns
  the float64 rendering \<open>9007199254740992\<close>, because the float64 decode comes first.
\<close>

theorem UnmarshalJSON_attempt_order_counterexample:
  "Unmarshal_int64 (TNumber \<lparr>negative = False, digits = 9007199254740993, scale = 0, exponent = None\<rparr>)
     = Some 9007199254740993
   \<and> Sprintf_d 9007199254740993 = ''9007199254740993''
   \<and> UnmarshalJSON (TNumber \<lparr>negative = False, digits = 9007199254740993, scale = 0, exponent = None\<rparr>)
     = Inr ''9007199254740992''"
proof -
  have "Sprintf_d 9007199254740993 = ''9007199254740993''"
    using Sprintf_d_nonneg [of 9007199254740993] by (simp add: show_nat_examples)
  moreover have "UnmarshalJSON (TNumber \<lparr>negative = False, digits = 9007199254740993, scale = 0, exponent = None\<rparr>)
     = Inr ''9007199254740992''"
    unfolding UnmarshalJSON_TNumber ParseFloat_9007199254740993 by (simp add: show_nat_examples)
  ultimately show ?thesis
    by (simp add: ParseInt_def)
qed

subsection \<open>The poll loop\<close>

text \<open>
  Claim C9. A tick whose invocation returns an error leaves the loop waiting in its
  \<open>select\<close>, in the state the invocation left with the line "Error fetching and pushing
  data" logged behind it, and the loop goes on from that state with the next event. Over
  any sequence of events, \<open>main\<close> has returned exactly when a shutdown signal or the
  context's cancellation was among them, and the error line has been logged exactly once
  for every failed tick before that event: failed ticks are logged and never end the
  loop.
\<close>

theorem main_loop_survives_failed_ticks:
  "(fst (FetchAndPushLogs marshal env (logging LevelDebug ''Ticker fired - fetching data'' w)) = Some err \<longrightarrow>
      main_loop marshal [TickerC env] w =
        (Selecting,
         logging LevelError ''Error fetching and pushing data''
           (snd (FetchAndPushLogs marshal env (logging LevelDebug ''Ticker fired - fetching data'' w))))
      \<and> main_loop marshal (TickerC env # evs) w =
        main_loop marshal evs
          (logging LevelError ''Error fetching and pushing data''
            (snd (FetchAndPushLogs marshal env (logging LevelDebug ''Ticker fired - fetching data'' w)))))
   \<and> ((fst (main_loop marshal evs w) = Returned) = (\<exists>ev\<in>set evs. is_shutdown ev))
   \<and> error_lines (snd (main_loop marshal evs w))
       = error_lines w
         + length (filter (failed_tick marshal w) (takeWhile (\<lambda>ev. \<not> is_shutdown ev) evs))
   \<and> globalLoggerProvider (snd (main_loop marshal evs w)) = globalLoggerProvider w"
proof -
  have step: "main_loop marshal [TickerC env] w =
        (Selecting,
         logging LevelError ''Error fetching and pushing data''
           (snd (FetchAndPushLogs marshal env (logging LevelDebug ''Ticker fired - fetching data'' w))))
      \<and> main_loop marshal (TickerC env # evs) w =
        main_loop marshal evs
          (logging LevelError ''Error fetching and pushing data''
            (snd (FetchAndPushLogs marshal env (logging LevelDebug ''Ticker fired - fetching data'' w))))"
    if "fst (FetchAndPushLogs marshal env (logging LevelDebug ''Ticker fired - fetching data'' w)) = Some err"
    using that by (auto split: prod.splits)
  from step main_loop_Returned_iff [of marshal evs w] main_loop_error_lines [of marshal evs w]
  show ?thesis
    by blast
qed

theorem main_loop_survives_failed_ticks_witness:
  "fst (FetchAndPushLogs marshal_hex (respond 503 None)
          (logging LevelDebug ''Ticker fired - fetching data'' (initial_world None)))
     = Some (HTTPRequestFailedWithStatus 503)
   \<and> main_loop marshal_hex [TickerC (respond 503 None)] (initial_world None)
       = (Selecting,
          \<lparr>globalLoggerProvider = None, emitted = [],
           log_lines =
             [(LevelDebug, ''Ticker fired - fetching data''),
              (LevelDebug, ''FetchAndPushLogs''),
              (LevelDebug, ''Flight data URL configured''),
              (LevelDebug, ''HTTP request''),
              (LevelError, ''HTTP request returned non-200 status''),
              (LevelError, ''Error fetching and pushing data'')]\<rparr>)
   \<and> fst (main_loop marshal_hex [TickerC (respond 503 None), TickerC (respond 503 None)] (initial_world None))
       = Selecting
   \<and> error_lines (snd (main_loop marshal_hex
         [TickerC (respond 503 None), TickerC (respond 503 None)] (initial_world None))) = 2
   \<and> fst (main_loop marshal_hex
         [TickerC (respond 503 None), TickerC (respond 200 (Some (document_of [scenario_aircraft]))),
          TickerC (respond 503 None), SigChan SIGTERM, TickerC (respond 503 None)]
         (initial_world None)) = Returned
   \<and> error_lines (snd (main_loop marshal_hex
         [TickerC (respond 503 None), TickerC (respond 200 (Some (document_of [scenario_aircraft]))),
          TickerC (respond 503 None), SigChan SIGTERM, TickerC (respond 503 None)]
         (initial_world None))) = 2
   \<and> fst (main_loop marshal_hex [TickerC (respond 503 None), CtxDone] (initial_world None))
       = Returned"
proof -
  let ?w = "initial_world None" and ?bad = "respond 503 None"
    and ?good = "respond 200 (Some (document_of [scenario_aircraft]))"
  have failed: "fst (FetchAndPushLogs marshal_hex ?bad
          (logging LevelDebug ''Ticker fired - fetching data'' ?w))
     = Some (HTTPRequestFailedWithStatus 503)"
    by (simp add: FetchAndPushLogs_def respond_def StatusOK_def Let_def)
  have ticks: "failed_tick marshal_hex ?w (TickerC ?bad)" "\<not> failed_tick marshal_hex ?w (TickerC ?good)"
    by (simp_all add: FetchAndPushLogs_def respond_def StatusOK_def GetLogger_def initial_world_def Let_def)
  have none: "error_lines ?w = 0"
    by (simp add: error_lines_def initial_world_def)
  have status: "loop_status = Selecting \<or> loop_status = Returned" for loop_status
    by (cases loop_status) simp_all
  from main_loop_survives_failed_ticks
      [where marshal = marshal_hex and env = ?bad and w = ?w
         and err = "HTTPRequestFailedWithStatus 503" and evs = "[]"] failed
  have one: "main_loop marshal_hex [TickerC ?bad] ?w =
      (Selecting, logging LevelError ''Error fetching and pushing data''
          (snd (FetchAndPushLogs marshal_hex ?bad (logging LevelDebug ''Ticker fired - fetching data'' ?w))))"
    by simp
  have one': "main_loop marshal_hex [TickerC ?bad] ?w
       = (Selecting,
          \<lparr>globalLoggerProvider = None, emitted = [],
           log_lines =
             [(LevelDebug, ''Ticker fired - fetching data''),
              (LevelDebug, ''FetchAndPushLogs''),
              (LevelDebug, ''Flight data URL configured''),
              (LevelDebug, ''HTTP request''),
              (LevelError, ''HTTP request returned non-200 status''),
              (LevelError, ''Error fetching and pushing data'')]\<rparr>)"
    unfolding one
    by (simp add: FetchAndPushLogs_def respond_def StatusOK_def Let_def logging_def initial_world_def)
  have two: "fst (main_loop marshal_hex [TickerC ?bad, TickerC ?bad] ?w) = Selecting
      \<and> error_lines (snd (main_loop marshal_hex [TickerC ?bad, TickerC ?bad] ?w)) = 2"
    using main_loop_survives_failed_ticks
      [where marshal = marshal_hex and evs = "[TickerC ?bad, TickerC ?bad]" and w = ?w]
      status [of "fst (main_loop marshal_hex [TickerC ?bad, TickerC ?bad] ?w)"] ticks none
    by simp
  have sig: "fst (main_loop marshal_hex
         [TickerC ?bad, TickerC ?good, TickerC ?bad, SigChan SIGTERM, TickerC ?bad] ?w) = Returned
      \<and> error_lines (snd (main_loop marshal_hex
         [TickerC ?bad, TickerC ?good, TickerC ?bad, SigChan SIGTERM, TickerC ?bad] ?w)) = 2"
    using main_loop_survives_failed_ticks
      [where marshal = marshal_hex
         and evs = "[TickerC ?bad, TickerC ?good, TickerC ?bad, SigChan SIGTERM, TickerC ?bad]"
         and w = ?w] ticks none
    by simp
  have cancelled: "fst (main_loop marshal_hex [TickerC ?bad, CtxDone] ?w) = Returned"
    using main_loop_survives_failed_ticks
      [where marshal = marshal_hex and evs = "[TickerC ?bad, CtxDone]" and w = ?w]
    by simp
  from failed one' two sig cancelled show ?thesis
    by simp
qed

end
